theory Spec2Isabelle
  imports Complex_Main "HOL-Library.Sublist" "HOL-Library.AList"
begin

section \<open>JavaScript values\<close>

text \<open>
  The analyzer of \<^verbatim>\<open>script.js\<close> works on whatever \<^verbatim>\<open>JSON.parse\<close> returns, so the
  values of the model are the JSON values, together with \<^verbatim>\<open>undefined\<close>, the result of
  reading a property that is not there. A string is the list of its code units, each
  below 256. A number is the mathematical value of its literal: the program only ever
  tests a number for being zero. An object is the list of its own properties in
  insertion order, with distinct keys when it comes out of the parser.
\<close>

datatype js =
    JUndefined
  | JNull
  | JBool bool
  | JNum rat
  | JStr string
  | JArr "js list"
  | JObj "(string \<times> js) list"

text \<open>The only exception the analysed functions can raise by themselves.\<close>

datatype error = TypeError

text \<open>ToBoolean: what \<^verbatim>\<open>!v\<close>, \<^verbatim>\<open>a || b\<close> and \<^verbatim>\<open>filter\<close> look at.\<close>

fun truthy :: "js \<Rightarrow> bool" where
  "truthy JUndefined = False"
| "truthy JNull = False"
| "truthy (JBool b) = b"
| "truthy (JNum n) = (n \<noteq> 0)"
| "truthy (JStr s) = (s \<noteq> [])"
| "truthy (JArr xs) = True"
| "truthy (JObj ps) = True"

fun nullish :: "js \<Rightarrow> bool" where
  "nullish JUndefined = True"
| "nullish JNull = True"
| "nullish v = False"

text \<open>\<^verbatim>\<open>a || b\<close> on values already computed.\<close>

definition or_js :: "js \<Rightarrow> js \<Rightarrow> js" where
  "or_js a b = (if truthy a then a else b)"

text \<open>
  Reading property \<open>k\<close> of a value that is neither \<^verbatim>\<open>null\<close> nor \<^verbatim>\<open>undefined\<close>. The
  program reads the names \<^verbatim>\<open>string_list_data\<close>, \<^verbatim>\<open>title\<close>, \<^verbatim>\<open>value\<close>, \<^verbatim>\<open>href\<close>,
  \<^verbatim>\<open>relationships_following\<close>, \<^verbatim>\<open>relationships_followers\<close> and the index \<^verbatim>\<open>0\<close>; no
  built-in prototype defines any of them, so an object answers with its own property,
  an array and a string answer to the index only, and everything else is
  \<^verbatim>\<open>undefined\<close>.
\<close>

fun lookup_prop :: "js \<Rightarrow> string \<Rightarrow> js" where
  "lookup_prop (JObj ps) k = (case map_of ps k of Some v \<Rightarrow> v | None \<Rightarrow> JUndefined)"
| "lookup_prop (JArr xs) k =
     (if k = ''0'' then (case xs of [] \<Rightarrow> JUndefined | x # _ \<Rightarrow> x) else JUndefined)"
| "lookup_prop (JStr s) k =
     (if k = ''0'' then (case s of [] \<Rightarrow> JUndefined | c # _ \<Rightarrow> JStr [c]) else JUndefined)"
| "lookup_prop v k = JUndefined"

text \<open>\<^verbatim>\<open>v.k\<close>: a TypeError on \<^verbatim>\<open>null\<close> and \<^verbatim>\<open>undefined\<close>.\<close>

definition get_prop :: "js \<Rightarrow> string \<Rightarrow> error + js" where
  "get_prop v k = (if nullish v then Inl TypeError else Inr (lookup_prop v k))"

text \<open>\<^verbatim>\<open>v?.k\<close> and \<^verbatim>\<open>v?.[0]\<close>: \<^verbatim>\<open>undefined\<close> on \<^verbatim>\<open>null\<close> and \<^verbatim>\<open>undefined\<close>.\<close>

definition opt_prop :: "js \<Rightarrow> string \<Rightarrow> js" where
  "opt_prop v k = (if nullish v then JUndefined else lookup_prop v k)"

section \<open>extractUsernames\<close>

record contact =
  username :: js
  href :: js

text \<open>
  The callback of \<^verbatim>\<open>data.map\<close> (lines 146 to 152):
  \<^verbatim>\<open>
  const entry = item.string_list_data?.[0];
  return { username: entry?.value || item.title || '', href: entry?.href || '' };
  \<close>
  \<^verbatim>\<open>item.string_list_data\<close> is a plain property read, so it throws on a \<^verbatim>\<open>null\<close> item.
\<close>

definition derive :: "js \<Rightarrow> error + contact" where
  "derive item =
     (case get_prop item ''string_list_data'' of
        Inl e \<Rightarrow> Inl e
      | Inr sld \<Rightarrow>
          (let entry = opt_prop sld ''0'' in
           Inr \<lparr> username =
                   or_js (or_js (opt_prop entry ''value'') (lookup_prop item ''title''))
                     (JStr ''''),
                 href = or_js (opt_prop entry ''href'') (JStr '''') \<rparr>))"

text \<open>\<^verbatim>\<open>data.map(callback)\<close>: the first exception of the callback ends the loop.\<close>

fun map_items :: "js list \<Rightarrow> error + contact list" where
  "map_items [] = Inr []"
| "map_items (item # items) =
     (case derive item of
        Inl e \<Rightarrow> Inl e
      | Inr r \<Rightarrow> (case map_items items of Inl e \<Rightarrow> Inl e | Inr rs \<Rightarrow> Inr (r # rs)))"

text \<open>
  Lines 140 to 154: \<^verbatim>\<open>Array.isArray\<close> guards the whole function, the mapped records are
  filtered by the truthiness of their username.
\<close>

fun isArray :: "js \<Rightarrow> bool" where
  "isArray (JArr xs) = True"
| "isArray v = False"

fun elements :: "js \<Rightarrow> js list" where
  "elements (JArr xs) = xs"
| "elements v = []"

definition extractUsernames :: "js \<Rightarrow> error + contact list" where
  "extractUsernames data =
     (if \<not> isArray data then Inr []
      else (case map_items (elements data) of
              Inl e \<Rightarrow> Inl e
            | Inr rs \<Rightarrow> Inr (filter (\<lambda>x. truthy (username x)) rs)))"

text \<open>
  The two reads the callback makes of an item that is not \<^verbatim>\<open>null\<close>:
  \<^verbatim>\<open>item.string_list_data?.[0]?.value\<close> and \<^verbatim>\<open>item.string_list_data?.[0]?.href\<close>.
\<close>

definition entry_value :: "js \<Rightarrow> js" where
  "entry_value item = opt_prop (opt_prop (lookup_prop item ''string_list_data'') ''0'') ''value''"

definition entry_href :: "js \<Rightarrow> js" where
  "entry_href item = opt_prop (opt_prop (lookup_prop item ''string_list_data'') ''0'') ''href''"

text \<open>
  The username as section 4.1 of the specification words it, to be compared with
  \<open>derive\<close>: the \<^verbatim>\<open>value\<close> of the first item of \<^verbatim>\<open>string_list_data\<close> if that sequence is
  not empty, else the \<^verbatim>\<open>title\<close>, else the empty string.
\<close>

definition spec_username :: "js \<Rightarrow> js" where
  "spec_username item =
     (case lookup_prop item ''string_list_data'' of
        JArr (entry # rest) \<Rightarrow> lookup_prop entry ''value''
      | _ \<Rightarrow> (case lookup_prop item ''title'' of JUndefined \<Rightarrow> JStr [] | t \<Rightarrow> t))"

text \<open>\<^verbatim>\<open>typeof v === 'string'\<close>, and a string that is not empty.\<close>

fun is_string :: "js \<Rightarrow> bool" where
  "is_string (JStr s) = True"
| "is_string v = False"

fun nonempty_string :: "js \<Rightarrow> bool" where
  "nonempty_string (JStr s) = (s \<noteq> [])"
| "nonempty_string v = False"

text \<open>
  The canonical lists of the specification hold records whose username is a non-empty
  string; the reciprocity computation only needs it to be a string.
\<close>

definition string_usernames :: "contact list \<Rightarrow> bool" where
  "string_usernames rs = list_all (\<lambda>x. is_string (username x)) rs"

section \<open>Text: trim and toLowerCase\<close>

text \<open>
  The white space and line terminators of ECMAScript that are code units below 256:
  tab, line feed, vertical tab, form feed, carriage return, space and no-break space.
\<close>

definition is_js_space :: "char \<Rightarrow> bool" where
  "is_js_space c \<longleftrightarrow> c \<in> set [CHR 0x09, CHR 0x0A, CHR 0x0B, CHR 0x0C, CHR 0x0D, CHR 0x20, CHR 0xA0]"

text \<open>\<^verbatim>\<open>String.prototype.trim\<close>.\<close>

definition trim :: "string \<Rightarrow> string" where
  "trim s = rev (dropWhile is_js_space (rev (dropWhile is_js_space s)))"

text \<open>
  \<^verbatim>\<open>String.prototype.toLowerCase\<close> on code units below 256: the letters A to Z and the
  Latin-1 capitals 0xC0 to 0xDE (the multiplication sign 0xD7 apart) move up by 32,
  every other unit is its own lower case. The transform does not depend on a locale.
\<close>

definition lower_unit :: "char \<Rightarrow> char" where
  "lower_unit c =
     (let n = (of_char c :: nat) in
      if (65 \<le> n \<and> n \<le> 90) \<or> (192 \<le> n \<and> n \<le> 222 \<and> n \<noteq> 215)
      then char_of (n + 32) else c)"

definition toLowerCase :: "string \<Rightarrow> string" where
  "toLowerCase s = map lower_unit s"

section \<open>parseJSON\<close>

text \<open>
  What the analyzer does to the page and the console, in the order it does it. The two
  alert texts of lines 170 and 225 are fixed sentences in Ukrainian, named here by what
  they say.
\<close>

datatype alert_text = JSONFormatAlert | AnalysisAlert

datatype 'e event =
    LogParseError 'e
  | LogAnalysisError error
  | Alert alert_text
  | ShowLoading
  | DisplayResults "contact list" "contact list" "contact list"
  | ResetButton
  | ClearResults

text \<open>What parsing a text can leave behind: the logged SyntaxError and the first alert.\<close>

fun parse_report :: "'e event \<Rightarrow> bool" where
  "parse_report (LogParseError e) = True"
| "parse_report (Alert a) = (a = JSONFormatAlert)"
| "parse_report ev = False"

text \<open>
  Lines 161 to 173. \<^verbatim>\<open>JSON.parse\<close> belongs to the runtime, so \<open>parse\<close> is a parameter:
  \<open>Inl e\<close> is the SyntaxError it throws, \<open>Inr v\<close> the value it returns. The function
  returns \<^verbatim>\<open>null\<close> both for blank text and in the \<^verbatim>\<open>catch\<close> branch; the second
  component lists what it logged and alerted on the way.
\<close>

definition parseJSON :: "(string \<Rightarrow> 'e + js) \<Rightarrow> string \<Rightarrow> js \<times> 'e event list" where
  "parseJSON parse input =
     (if input = [] \<or> trim input = [] then (JNull, [])
      else (case parse input of
              Inr v \<Rightarrow> (v, [])
            | Inl e \<Rightarrow> (JNull, [LogParseError e, Alert JSONFormatAlert])))"

section \<open>analyze\<close>

text \<open>\<^verbatim>\<open>raw[key] || raw\<close> of lines 203 and 206, \<open>raw\<close> the parsed text.\<close>

definition unwrap :: "string \<Rightarrow> js \<Rightarrow> error + js" where
  "unwrap key raw =
     (case get_prop raw key of Inl e \<Rightarrow> Inl e | Inr v \<Rightarrow> Inr (or_js v raw))"

text \<open>
  The unwrapper as section 4.2 of the specification words it, to be compared with
  \<open>unwrap\<close>: the value at the key if the key is present on the object, else the parsed
  value itself.
\<close>

definition spec_unwrap :: "string \<Rightarrow> js \<Rightarrow> js" where
  "spec_unwrap key raw =
     (case raw of
        JObj ps \<Rightarrow> (case map_of ps key of Some v \<Rightarrow> v | None \<Rightarrow> raw)
      | _ \<Rightarrow> raw)"

text \<open>\<^verbatim>\<open>x.username.toLowerCase()\<close>: only a string has the method.\<close>

fun lower_username :: "contact \<Rightarrow> error + string" where
  "lower_username x = (case username x of JStr s \<Rightarrow> Inr (toLowerCase s) | _ \<Rightarrow> Inl TypeError)"

text \<open>Line 210: the lowered usernames of the followers, in order, before they enter the Set.\<close>

fun lowered :: "contact list \<Rightarrow> error + string list" where
  "lowered [] = Inr []"
| "lowered (x # xs) =
     (case lower_username x of
        Inl e \<Rightarrow> Inl e
      | Inr l \<Rightarrow> (case lowered xs of Inl e \<Rightarrow> Inl e | Inr ls \<Rightarrow> Inr (l # ls)))"

text \<open>Lines 213 to 215: \<^verbatim>\<open>following.filter((x) => !followersSet.has(...))\<close>.\<close>

fun filter_unmatched :: "string set \<Rightarrow> contact list \<Rightarrow> error + contact list" where
  "filter_unmatched followersSet [] = Inr []"
| "filter_unmatched followersSet (x # xs) =
     (case lower_username x of
        Inl e \<Rightarrow> Inl e
      | Inr l \<Rightarrow>
          (case filter_unmatched followersSet xs of
             Inl e \<Rightarrow> Inl e
           | Inr ys \<Rightarrow> Inr (if l \<notin> followersSet then x # ys else ys)))"

text \<open>Lines 210 to 215 together, on two lists of records.\<close>

definition notFollowingBack :: "contact list \<Rightarrow> contact list \<Rightarrow> error + contact list" where
  "notFollowingBack following followers =
     (case lowered followers of
        Inl e \<Rightarrow> Inl e
      | Inr ls \<Rightarrow> filter_unmatched (set ls) following)"

text \<open>The body of the \<^verbatim>\<open>try\<close> block up to the call of \<^verbatim>\<open>displayResults\<close> (lines 201 to 215).\<close>

definition analysis :: "js \<Rightarrow> js \<Rightarrow> error + contact list \<times> contact list \<times> contact list" where
  "analysis followingRaw followersRaw =
     (case unwrap ''relationships_following'' followingRaw of
        Inl e \<Rightarrow> Inl e
      | Inr a \<Rightarrow>
     (case extractUsernames a of
        Inl e \<Rightarrow> Inl e
      | Inr following \<Rightarrow>
     (case unwrap ''relationships_followers'' followersRaw of
        Inl e \<Rightarrow> Inl e
      | Inr b \<Rightarrow>
     (case extractUsernames b of
        Inl e \<Rightarrow> Inl e
      | Inr followers \<Rightarrow>
     (case notFollowingBack following followers of
        Inl e \<Rightarrow> Inl e
      | Inr nfb \<Rightarrow> Inr (following, followers, nfb))))))"

text \<open>
  Lines 178 to 231, the two input texts in place of the two text areas. Both texts are
  parsed before the guard of line 189 looks at either value; the callback handed to
  \<^verbatim>\<open>setTimeout\<close> is run where it is scheduled. Rendering is left to the page: the
  model records that \<^verbatim>\<open>displayResults\<close> was called and with which three lists.
\<close>

definition analyze :: "(string \<Rightarrow> 'e + js) \<Rightarrow> string \<Rightarrow> string \<Rightarrow> 'e event list" where
  "analyze parse followingInput followersInput =
     (let (followingRaw, log1) = parseJSON parse followingInput;
          (followersRaw, log2) = parseJSON parse followersInput
      in if \<not> truthy followingRaw \<or> \<not> truthy followersRaw then log1 @ log2
         else log1 @ log2 @ [ShowLoading] @
           (case analysis followingRaw followersRaw of
              Inr (following, followers, nfb) \<Rightarrow>
                [DisplayResults following followers nfb, ResetButton]
            | Inl e \<Rightarrow> [LogAnalysisError e, Alert AnalysisAlert, ResetButton, ClearResults]))"

section \<open>JSON.parse\<close>

text \<open>
  The runtime's parser on texts of code units below 256, for the concrete runs of the
  analyzer below: a lexer that walks the text once, and a stack machine over its tokens.
  The message of a SyntaxError is the engine's own and is not modelled. An escape
  \<^verbatim>\<open>\u....\<close> naming a code unit of 256 or more has no string in this model and is
  rejected. An object that repeats a key keeps the position of the first occurrence and
  the value of the last.
\<close>

datatype syntax_error = SyntaxError

datatype token = TLBrace | TRBrace | TLBrack | TRBrack | TColon | TComma | TValue js

definition is_json_space :: "char \<Rightarrow> bool" where
  "is_json_space c \<longleftrightarrow> c \<in> set [CHR 0x09, CHR 0x0A, CHR 0x0D, CHR 0x20]"

definition is_digit :: "char \<Rightarrow> bool" where
  "is_digit c \<longleftrightarrow> c \<in> set ''0123456789''"

definition hex_val :: "char \<Rightarrow> nat option" where
  "hex_val c = map_of (zip ''0123456789abcdefABCDEF'' ([0 ..< 16] @ [10 ..< 16])) c"

definition escape :: "char \<Rightarrow> char option" where
  "escape e = map_of [(CHR 0x22, CHR 0x22), (CHR 0x5C, CHR 0x5C), (CHR ''/'', CHR ''/''),
     (CHR ''b'', CHR 0x08), (CHR ''f'', CHR 0x0C), (CHR ''n'', CHR 0x0A),
     (CHR ''r'', CHR 0x0D), (CHR ''t'', CHR 0x09)] e"

text \<open>
  A number token is the longest run of characters that can occur in a number; no valid
  text continues a number with one of them. The run is then matched against
  \<^verbatim>\<open>-? (0 | [1-9][0-9]*) (. [0-9]+)? ([eE] [+-]? [0-9]+)?\<close>.
\<close>

definition digits_value :: "string \<Rightarrow> nat" where
  "digits_value ds = foldl (\<lambda>n d. 10 * n + (of_char d - 48)) 0 ds"

definition is_number_char :: "char \<Rightarrow> bool" where
  "is_number_char c \<longleftrightarrow> c \<in> set ''0123456789+-.eE''"

definition starts_with :: "char list \<Rightarrow> string \<Rightarrow> bool" where
  "starts_with cs s \<longleftrightarrow> (case s of [] \<Rightarrow> False | c # _ \<Rightarrow> c \<in> set cs)"

definition number_value :: "string \<Rightarrow> rat option" where
  "number_value s =
     (let neg = starts_with ''-'' s;
          s1 = (if neg then tl s else s);
          ip = takeWhile is_digit s1;
          s2 = dropWhile is_digit s1;
          has_frac = starts_with ''.'' s2;
          fp = (if has_frac then takeWhile is_digit (tl s2) else []);
          s3 = (if has_frac then dropWhile is_digit (tl s2) else s2);
          has_exp = starts_with ''eE'' s3;
          s4 = (if has_exp then tl s3 else s3);
          eneg = starts_with ''-'' s4;
          ep = (if starts_with ''+-'' s4 then tl s4 else s4);
          m = of_nat (digits_value (ip @ fp)) / 10 ^ length fp;
          x = (if eneg then m / 10 ^ digits_value ep else m * 10 ^ digits_value ep)
      in if ip = [] \<or> (starts_with ''0'' ip \<and> length ip > 1) \<or> (has_frac \<and> fp = [])
            \<or> (has_exp \<and> (ep = [] \<or> \<not> list_all is_digit ep)) \<or> (\<not> has_exp \<and> s3 \<noteq> [])
         then None
         else Some (if neg then - x else x))"

definition punctuation :: "char \<Rightarrow> token option" where
  "punctuation c =
     map_of [(CHR ''['', TLBrack), (CHR '']'', TRBrack), (CHR ''{'', TLBrace),
       (CHR ''}'', TRBrace), (CHR '':'', TColon), (CHR '','', TComma)] c"

definition is_letter :: "char \<Rightarrow> bool" where
  "is_letter c \<longleftrightarrow> c \<in> set ''abcdefghijklmnopqrstuvwxyz''"

definition literal_value :: "string \<Rightarrow> js option" where
  "literal_value w =
     map_of [(''null'', JNull), (''true'', JBool True), (''false'', JBool False)] w"

datatype lex_state =
    LStart
  | LString string
  | LEscape string
  | LHex string "nat list"
  | LNumber string
  | LWord string

function lex :: "lex_state \<Rightarrow> string \<Rightarrow> token list option" where
  "lex LStart [] = Some []"
| "lex LStart (c # cs) =
     (if is_json_space c then lex LStart cs
      else if c = CHR 0x22 then lex (LString []) cs
      else if is_number_char c then lex (LNumber [c]) cs
      else if is_letter c then lex (LWord [c]) cs
      else (case punctuation c of
              Some t \<Rightarrow> map_option ((#) t) (lex LStart cs)
            | None \<Rightarrow> None))"
| "lex (LString acc) [] = None"
| "lex (LString acc) (c # cs) =
     (if c = CHR 0x22 then map_option ((#) (TValue (JStr (rev acc)))) (lex LStart cs)
      else if c = CHR 0x5C then lex (LEscape acc) cs
      else if (of_char c :: nat) < 32 then None
      else lex (LString (c # acc)) cs)"
| "lex (LEscape acc) [] = None"
| "lex (LEscape acc) (e # cs) =
     (if e = CHR ''u'' then lex (LHex acc []) cs
      else (case escape e of Some x \<Rightarrow> lex (LString (x # acc)) cs | None \<Rightarrow> None))"
| "lex (LHex acc ds) [] = None"
| "lex (LHex acc ds) (h # cs) =
     (case hex_val h of
        None \<Rightarrow> None
      | Some d \<Rightarrow>
          if length ds < 3 then lex (LHex acc (ds @ [d])) cs
          else (let n = foldl (\<lambda>a x. 16 * a + x) 0 (ds @ [d])
                in if n < 256 then lex (LString (char_of n # acc)) cs else None))"
| "lex (LNumber acc) [] = map_option (\<lambda>n. [TValue (JNum n)]) (number_value (rev acc))"
| "lex (LNumber acc) (c # cs) =
     (if is_number_char c then lex (LNumber (c # acc)) cs
      else (case number_value (rev acc) of
              None \<Rightarrow> None
            | Some n \<Rightarrow> map_option ((#) (TValue (JNum n))) (lex LStart (c # cs))))"
| "lex (LWord acc) [] = map_option (\<lambda>v. [TValue v]) (literal_value (rev acc))"
| "lex (LWord acc) (c # cs) =
     (if is_letter c then lex (LWord (c # acc)) cs
      else (case literal_value (rev acc) of
              None \<Rightarrow> None
            | Some v \<Rightarrow> map_option ((#) (TValue v)) (lex LStart (c # cs))))"
  by pat_completeness auto
termination
  by (relation "measure (\<lambda>(s, cs). 2 * length cs + (if s = LStart then 0 else 1))") auto

text \<open>
  The stack holds the arrays and objects that are still open: the elements read so far
  (latest first) or the properties read so far with the key whose value is being read.
\<close>

datatype frame = InArr "js list" | InObj "(string \<times> js) list" string

datatype mode =
    MValue
  | MArrStart
  | MArrNext "js list"
  | MObjStart
  | MObjNext "(string \<times> js) list"
  | MKey "(string \<times> js) list"
  | MColon "(string \<times> js) list" string
  | MDone js

fun push_value :: "js \<Rightarrow> frame list \<Rightarrow> mode \<times> frame list" where
  "push_value v [] = (MDone v, [])"
| "push_value v (InArr acc # st) = (MArrNext (v # acc), st)"
| "push_value v (InObj ps k # st) = (MObjNext (AList.update k v ps), st)"

fun value_step :: "frame list \<Rightarrow> token \<Rightarrow> (mode \<times> frame list) option" where
  "value_step st (TValue v) = Some (push_value v st)"
| "value_step st TLBrack = Some (MArrStart, st)"
| "value_step st TLBrace = Some (MObjStart, st)"
| "value_step st t = None"

fun step :: "mode \<Rightarrow> frame list \<Rightarrow> token \<Rightarrow> (mode \<times> frame list) option" where
  "step MValue st t = value_step st t"
| "step MArrStart st t =
     (if t = TRBrack then Some (push_value (JArr []) st) else value_step (InArr [] # st) t)"
| "step (MArrNext acc) st t =
     (if t = TComma then Some (MValue, InArr acc # st)
      else if t = TRBrack then Some (push_value (JArr (rev acc)) st)
      else None)"
| "step MObjStart st t =
     (case t of
        TRBrace \<Rightarrow> Some (push_value (JObj []) st)
      | TValue (JStr k) \<Rightarrow> Some (MColon [] k, st)
      | _ \<Rightarrow> None)"
| "step (MObjNext ps) st t =
     (if t = TComma then Some (MKey ps, st)
      else if t = TRBrace then Some (push_value (JObj ps) st)
      else None)"
| "step (MKey ps) st t = (case t of TValue (JStr k) \<Rightarrow> Some (MColon ps k, st) | _ \<Rightarrow> None)"
| "step (MColon ps k) st t = (if t = TColon then Some (MValue, InObj ps k # st) else None)"
| "step (MDone v) st t = None"

fun run :: "mode \<Rightarrow> frame list \<Rightarrow> token list \<Rightarrow> js option" where
  "run m st [] = (case m of MDone v \<Rightarrow> Some v | _ \<Rightarrow> None)"
| "run m st (t # ts) = (case step m st t of None \<Rightarrow> None | Some (m', st') \<Rightarrow> run m' st' ts)"

definition JSON_parse :: "string \<Rightarrow> syntax_error + js" where
  "JSON_parse text =
     (case lex LStart text of
        None \<Rightarrow> Inl SyntaxError
      | Some ts \<Rightarrow> (case run MValue [] ts of None \<Rightarrow> Inl SyntaxError | Some v \<Rightarrow> Inr v))"

section \<open>Auxiliary facts\<close>

lemma derive_not_nullish:
  "\<not> nullish item \<Longrightarrow>
   derive item = Inr \<lparr> username = or_js (or_js (entry_value item) (lookup_prop item ''title'')) (JStr ''''),
                       href = or_js (entry_href item) (JStr '''') \<rparr>"
  by (simp add: derive_def get_prop_def entry_value_def entry_href_def Let_def)

lemma derive_nullish: "nullish item \<Longrightarrow> derive item = Inl TypeError"
  by (simp add: derive_def get_prop_def)

lemma map_items_Inr:
  "map_items items = Inr rs \<Longrightarrow> list_all2 (\<lambda>item r. derive item = Inr r) items rs"
proof (induction items arbitrary: rs)
  case Nil
  then show ?case by simp
next
  case (Cons item items)
  then show ?case by (auto split: sum.splits)
qed

lemma map_items_total:
  "list_all (\<lambda>item. \<not> nullish item) items \<Longrightarrow> \<exists>rs. map_items items = Inr rs"
proof (induction items)
  case Nil
  then show ?case by simp
next
  case (Cons item items)
  then show ?case by (auto simp: derive_not_nullish simp del: nullish.simps)
qed

lemma map_items_length: "map_items items = Inr rs \<Longrightarrow> length rs = length items"
  by (drule map_items_Inr) (simp add: list_all2_lengthD)

lemma extract_array:
  "extractUsernames (JArr items) =
     (case map_items items of Inl e \<Rightarrow> Inl e | Inr rs \<Rightarrow> Inr (filter (\<lambda>x. truthy (username x)) rs))"
  by (simp add: extractUsernames_def)

lemma lowered_strings:
  "string_usernames xs \<Longrightarrow> \<exists>ls. lowered xs = Inr ls \<and> Inr ` set ls = lower_username ` set xs"
proof (induction xs)
  case Nil
  then show ?case by simp
next
  case (Cons x xs)
  then obtain ls where ls: "lowered xs = Inr ls" "Inr ` set ls = lower_username ` set xs"
    by (auto simp: string_usernames_def)
  from Cons.prems obtain s where s: "username x = JStr s"
    by (cases "username x") (auto simp: string_usernames_def)
  then have "lowered (x # xs) = Inr (toLowerCase s # ls)"
    using ls by simp
  moreover have "Inr ` set (toLowerCase s # ls) = lower_username ` set (x # xs)"
    using ls s by simp
  ultimately show ?case by blast
qed

lemma filter_unmatched_strings:
  "string_usernames xs \<Longrightarrow>
   filter_unmatched S xs = Inr (filter (\<lambda>x. lower_username x \<notin> Inr ` S) xs)"
proof (induction xs)
  case Nil
  then show ?case by simp
next
  case (Cons x xs)
  from Cons.prems obtain s where s: "username x = JStr s"
    by (cases "username x") (auto simp: string_usernames_def)
  from Cons have "filter_unmatched S xs = Inr (filter (\<lambda>x. lower_username x \<notin> Inr ` S) xs)"
    by (simp add: string_usernames_def)
  with s show ?case by auto
qed

lemma notFollowingBack_strings:
  assumes "string_usernames following" and "string_usernames followers"
  shows "notFollowingBack following followers =
           Inr (filter (\<lambda>x. lower_username x \<notin> lower_username ` set followers) following)"
proof -
  from lowered_strings [OF assms(2)] obtain ls
    where ls: "lowered followers = Inr ls" "Inr ` set ls = lower_username ` set followers"
    by blast
  show ?thesis
    using ls filter_unmatched_strings [OF assms(1), of "set ls"]
    by (simp add: notFollowingBack_def)
qed

lemma dropWhile_rev_Nil:
  assumes "ys \<noteq> [] \<Longrightarrow> \<not> P (hd ys)"
  shows "dropWhile P (rev ys) = [] \<longleftrightarrow> ys = []"
proof (cases ys)
  case Nil
  then show ?thesis by simp
next
  case (Cons c cs)
  with assms have "\<not> P c" by simp
  with Cons show ?thesis by auto
qed

lemma trim_blank: "(input = [] \<or> trim input = []) \<longleftrightarrow> list_all is_js_space input"
proof -
  have "dropWhile is_js_space (rev (dropWhile is_js_space input)) = [] \<longleftrightarrow>
        dropWhile is_js_space input = []"
    by (rule dropWhile_rev_Nil) (erule hd_dropWhile)
  then have "trim input = [] \<longleftrightarrow> list_all is_js_space input"
    unfolding trim_def rev_is_Nil_conv by (simp add: list_all_iff)
  then show ?thesis by auto
qed

section \<open>Claims about extractUsernames\<close>

text \<open>
  C8. For every input that is not an array (\<^verbatim>\<open>null\<close>, a string such as
  \<^verbatim>\<open>"not array"\<close>, a plain object, a number, a boolean) extractUsernames returns the
  empty list and does not throw; and extractUsernames of the empty array is the empty
  list.
\<close>

theorem extractUsernames_non_array:
  "(\<not> isArray data \<longrightarrow> extractUsernames data = Inr []) \<and> extractUsernames (JArr []) = Inr []"
  by (simp add: extractUsernames_def)

theorem extractUsernames_non_array_witness:
  "\<not> isArray JNull \<and> extractUsernames JNull = Inr [] \<and>
   \<not> isArray (JStr ''not array'') \<and> extractUsernames (JStr ''not array'') = Inr [] \<and>
   \<not> isArray (JObj [(''title'', JStr ''a'')]) \<and>
   extractUsernames (JObj [(''title'', JStr ''a'')]) = Inr []"
  using extractUsernames_non_array [of JNull]
    extractUsernames_non_array [of "JStr ''not array''"]
    extractUsernames_non_array [of "JObj [(''title'', JStr ''a'')]"]
  by simp

text \<open>
  C5. The claim is that extractUsernames never raises, whatever the elements of the
  array are, \<^verbatim>\<open>null\<close> elements included. On the array \<^verbatim>\<open>[null]\<close> the callback reads
  \<^verbatim>\<open>item.string_list_data\<close> of \<^verbatim>\<open>null\<close> and the TypeError leaves the function: the
  optional chaining that protects \<^verbatim>\<open>string_list_data\<close> and \<^verbatim>\<open>entry\<close> is missing on
  \<^verbatim>\<open>item\<close> itself.
\<close>

theorem extractUsernames_null_element:
  "extractUsernames (JArr [JNull]) = Inl TypeError"
  by (simp add: extractUsernames_def derive_def get_prop_def)

lemma count_list_filter:
  "count_list (filter P xs) x = (if P x then count_list xs x else 0)"
  by (induction xs) auto

lemma or_js_chain:
  "or_js (or_js v t) (JStr []) = (if truthy v then v else if truthy t then t else JStr [])"
  by (simp add: or_js_def)

text \<open>
  C3, as amended. For every array without a \<^verbatim>\<open>null\<close> element the callback returns one
  record per element, and the username of the record of an element is: the \<^verbatim>\<open>value\<close>
  of the first item of its \<^verbatim>\<open>string_list_data\<close> if that value is truthy; otherwise its
  \<^verbatim>\<open>title\<close> if that is truthy; otherwise the empty string. A first item whose
  \<^verbatim>\<open>value\<close> is the empty string (or is missing, \<^verbatim>\<open>null\<close>, \<^verbatim>\<open>0\<close> or \<^verbatim>\<open>false\<close>)
  therefore falls back to the \<^verbatim>\<open>title\<close>.
\<close>

theorem derive_username_chain:
  assumes "list_all (\<lambda>item. \<not> nullish item) items"
  shows "\<exists>rs. map_items items = Inr rs \<and> length rs = length items \<and>
           (\<forall>i < length items.
              username (rs ! i) =
                (if truthy (entry_value (items ! i)) then entry_value (items ! i)
                 else if truthy (lookup_prop (items ! i) ''title'') then lookup_prop (items ! i) ''title''
                 else JStr ''''))"
proof -
  from map_items_total [OF assms] obtain rs where rs: "map_items items = Inr rs" by blast
  then have all2: "list_all2 (\<lambda>item r. derive item = Inr r) items rs"
    by (rule map_items_Inr)
  have "username (rs ! i) =
          (if truthy (entry_value (items ! i)) then entry_value (items ! i)
           else if truthy (lookup_prop (items ! i) ''title'') then lookup_prop (items ! i) ''title''
           else JStr '''')" if i: "i < length items" for i
  proof -
    from all2 i have d: "derive (items ! i) = Inr (rs ! i)"
      by (rule list_all2_nthD)
    from assms i have "\<not> nullish (items ! i)"
      by (simp add: list_all_length)
    from derive_not_nullish [OF this] d show ?thesis
      by (simp add: or_js_chain)
  qed
  with rs all2 show ?thesis
    by (auto simp: list_all2_lengthD)
qed

text \<open>
  The theorem at the one-element array \<^verbatim>\<open>[{string_list_data: [{value: ""}], title: "T"}]\<close>:
  the username is the title.
\<close>

theorem derive_username_chain_witness:
  "list_all (\<lambda>item. \<not> nullish item)
     [JObj [(''string_list_data'', JArr [JObj [(''value'', JStr '''')]]), (''title'', JStr ''T'')]] \<and>
   (\<exists>rs. map_items [JObj [(''string_list_data'', JArr [JObj [(''value'', JStr '''')]]), (''title'', JStr ''T'')]] = Inr rs \<and>
      username (rs ! 0) = JStr ''T'')"
proof -
  let ?items = "[JObj [(''string_list_data'', JArr [JObj [(''value'', JStr '''')]]), (''title'', JStr ''T'')]]"
  have h: "list_all (\<lambda>item. \<not> nullish item) ?items" by simp
  from derive_username_chain [OF h] obtain rs
    where rs: "map_items ?items = Inr rs"
      and u: "\<forall>i < length ?items. username (rs ! i) =
                (if truthy (entry_value (?items ! i)) then entry_value (?items ! i)
                 else if truthy (lookup_prop (?items ! i) ''title'') then lookup_prop (?items ! i) ''title''
                 else JStr '''')"
    by blast
  from u have "username (rs ! 0) = JStr ''T''"
    by (simp add: entry_value_def opt_prop_def)
  with h rs show ?thesis by blast
qed

text \<open>
  C3 as the claim states it fails on that element: its \<^verbatim>\<open>string_list_data\<close> is not
  empty and the \<^verbatim>\<open>value\<close> of its first item is the empty string, which the claim
  says is used; the callback returns the title \<^verbatim>\<open>"T"\<close>.
\<close>

theorem username_spec_counterexample:
  "derive (JObj [(''string_list_data'', JArr [JObj [(''value'', JStr '''')]]), (''title'', JStr ''T'')])
     = Inr \<lparr> username = JStr ''T'', href = JStr '''' \<rparr> \<and>
   spec_username (JObj [(''string_list_data'', JArr [JObj [(''value'', JStr '''')]]), (''title'', JStr ''T'')])
     = JStr ''''"
  by (simp add: derive_def get_prop_def opt_prop_def or_js_def spec_username_def)

text \<open>
  C7, as amended. For every input whose elements are not \<^verbatim>\<open>null\<close> (every input that
  is not an array has none) extractUsernames returns a list that is no longer than the
  input array, and the username of every record in it is truthy: a non-empty string
  whenever it is a string at all. A username that is a number other than zero,
  \<^verbatim>\<open>true\<close>, an array or an object is kept as it is.
\<close>

theorem extractUsernames_length_truthy:
  assumes "list_all (\<lambda>item. \<not> nullish item) (elements data)"
  shows "\<exists>rs. extractUsernames data = Inr rs \<and> length rs \<le> length (elements data) \<and>
           list_all (\<lambda>r. truthy (username r) \<and>
                          (is_string (username r) \<longrightarrow> nonempty_string (username r))) rs"
proof (cases "isArray data")
  case False
  then show ?thesis by (simp add: extractUsernames_def)
next
  case True
  from map_items_total [OF assms] obtain rs where rs: "map_items (elements data) = Inr rs"
    by blast
  have "truthy v \<Longrightarrow> is_string v \<Longrightarrow> nonempty_string v" for v
    by (cases v) simp_all
  then have "list_all (\<lambda>r. truthy (username r) \<and>
                (is_string (username r) \<longrightarrow> nonempty_string (username r)))
              (filter (\<lambda>x. truthy (username x)) rs)"
    by (auto simp: list_all_iff)
  moreover have "length (filter (\<lambda>x. truthy (username x)) rs) \<le> length (elements data)"
    using map_items_length [OF rs] length_filter_le [of "\<lambda>x. truthy (username x)" rs] by simp
  ultimately show ?thesis
    using True rs by (simp add: extractUsernames_def)
qed

text \<open>
  The theorem at \<^verbatim>\<open>[{title: 5}, {}, {title: "a"}]\<close>: the entry without a username is
  dropped, the number is kept.
\<close>

theorem extractUsernames_length_truthy_witness:
  "list_all (\<lambda>item. \<not> nullish item)
     (elements (JArr [JObj [(''title'', JNum 5)], JObj [], JObj [(''title'', JStr ''a'')]])) \<and>
   extractUsernames (JArr [JObj [(''title'', JNum 5)], JObj [], JObj [(''title'', JStr ''a'')]]) =
     Inr [\<lparr> username = JNum 5, href = JStr '''' \<rparr>, \<lparr> username = JStr ''a'', href = JStr '''' \<rparr>]"
  using extractUsernames_length_truthy
    [of "JArr [JObj [(''title'', JNum 5)], JObj [], JObj [(''title'', JStr ''a'')]]"]
  by (simp add: extractUsernames_def derive_def get_prop_def opt_prop_def or_js_def)

text \<open>
  C7 as the claim states it fails on \<^verbatim>\<open>[{title: 5}]\<close>: the record that comes back has
  the number 5 as its username, which is not a string.
\<close>

theorem truthy_username_counterexample:
  "extractUsernames (JArr [JObj [(''title'', JNum 5)]]) = Inr [\<lparr> username = JNum 5, href = JStr '''' \<rparr>] \<and>
   \<not> nonempty_string (JNum 5)"
  by (simp add: extractUsernames_def derive_def get_prop_def opt_prop_def or_js_def)

section \<open>Claims about the reciprocity computation\<close>

text \<open>
  C1. For every two lists of records whose usernames are strings (the canonical lists
  of the specification are such lists) the computation of lines 210 to 215 returns a
  list, and a record belongs to it if and only if it is a record of \<open>following\<close> and its
  lower-cased username is not the lower-cased username of any record of \<open>followers\<close>.
  Matching therefore ignores case.
\<close>

theorem notFollowingBack_membership:
  assumes "string_usernames following" and "string_usernames followers"
  shows "\<exists>nfb. notFollowingBack following followers = Inr nfb \<and>
           (\<forall>x. x \<in> set nfb \<longleftrightarrow>
                  x \<in> set following \<and> lower_username x \<notin> lower_username ` set followers)"
  using notFollowingBack_strings [OF assms] by simp

text \<open>
  The theorem at following \<^verbatim>\<open>[{username: "Bob"}]\<close> and followers
  \<^verbatim>\<open>[{username: "bob"}]\<close>: nothing is left.
\<close>

theorem notFollowingBack_membership_witness:
  "string_usernames [\<lparr> username = JStr ''Bob'', href = JUndefined \<rparr>] \<and>
   string_usernames [\<lparr> username = JStr ''bob'', href = JUndefined \<rparr>] \<and>
   notFollowingBack [\<lparr> username = JStr ''Bob'', href = JUndefined \<rparr>]
     [\<lparr> username = JStr ''bob'', href = JUndefined \<rparr>] = Inr []"
proof -
  let ?following = "[\<lparr> username = JStr ''Bob'', href = JUndefined \<rparr>]"
  let ?followers = "[\<lparr> username = JStr ''bob'', href = JUndefined \<rparr>]"
  have h1: "string_usernames ?following" and h2: "string_usernames ?followers"
    by (simp_all add: string_usernames_def)
  have low: "toLowerCase ''Bob'' = ''bob''" "toLowerCase ''bob'' = ''bob''"
    by code_simp+
  from notFollowingBack_membership [OF h1 h2] obtain nfb
    where nfb: "notFollowingBack ?following ?followers = Inr nfb"
      and mem: "\<forall>x. x \<in> set nfb \<longleftrightarrow>
                  x \<in> set ?following \<and> lower_username x \<notin> lower_username ` set ?followers"
    by (elim exE conjE)
  have "x \<notin> set nfb" for x
  proof
    assume "x \<in> set nfb"
    with mem show False by (clarsimp simp: low)
  qed
  then have "nfb = []" by (cases nfb) auto
  with nfb h1 h2 show ?thesis by simp
qed

text \<open>
  C2. For every two such lists the result is a subsequence of \<open>following\<close>: it keeps
  the relative order of the records it retains, and each retained record is a record
  of \<open>following\<close> itself, with its own \<^verbatim>\<open>href\<close> and its own spelling of the username,
  never a record of \<open>followers\<close>.
\<close>

theorem notFollowingBack_subseq:
  assumes "string_usernames following" and "string_usernames followers"
  shows "\<exists>nfb. notFollowingBack following followers = Inr nfb \<and>
           subseq nfb following \<and> set nfb \<subseteq> set following"
  using notFollowingBack_strings [OF assms] by auto

text \<open>
  The theorem at following \<^verbatim>\<open>[{username: "a", href: "u/a"}, {username: "b", href: "u/b"}]\<close>
  and followers \<^verbatim>\<open>[{username: "A", href: "v/A"}]\<close>.
\<close>

theorem notFollowingBack_subseq_witness:
  "string_usernames [\<lparr> username = JStr ''a'', href = JStr ''u/a'' \<rparr>, \<lparr> username = JStr ''b'', href = JStr ''u/b'' \<rparr>] \<and>
   string_usernames [\<lparr> username = JStr ''A'', href = JStr ''v/A'' \<rparr>] \<and>
   notFollowingBack
     [\<lparr> username = JStr ''a'', href = JStr ''u/a'' \<rparr>, \<lparr> username = JStr ''b'', href = JStr ''u/b'' \<rparr>]
     [\<lparr> username = JStr ''A'', href = JStr ''v/A'' \<rparr>] = Inr [\<lparr> username = JStr ''b'', href = JStr ''u/b'' \<rparr>] \<and>
   subseq [\<lparr> username = JStr ''b'', href = JStr ''u/b'' \<rparr>]
     [\<lparr> username = JStr ''a'', href = JStr ''u/a'' \<rparr>, \<lparr> username = JStr ''b'', href = JStr ''u/b'' \<rparr>]"
proof -
  let ?following = "[\<lparr> username = JStr ''a'', href = JStr ''u/a'' \<rparr>, \<lparr> username = JStr ''b'', href = JStr ''u/b'' \<rparr>]"
  let ?followers = "[\<lparr> username = JStr ''A'', href = JStr ''v/A'' \<rparr>]"
  have h1: "string_usernames ?following" and h2: "string_usernames ?followers"
    by (simp_all add: string_usernames_def)
  have run: "notFollowingBack ?following ?followers = Inr [\<lparr> username = JStr ''b'', href = JStr ''u/b'' \<rparr>]"
    by code_simp
  from notFollowingBack_subseq [OF h1 h2] run
  have "subseq [\<lparr> username = JStr ''b'', href = JStr ''u/b'' \<rparr>] ?following"
    by auto
  with h1 h2 run show ?thesis by (intro conjI)
qed

text \<open>
  C10, as amended. Neither step removes duplicates. On an array without a \<^verbatim>\<open>null\<close>
  element extractUsernames derives one record per entry, in order, and returns those
  with a truthy username, each as often as it was derived. On lists of records whose
  usernames are all strings the reciprocity computation returns a list that keeps every
  record of \<open>following\<close> whose lower-cased username matches no follower as often as it
  occurs in \<open>following\<close>.
\<close>

theorem no_deduplication:
  "(list_all (\<lambda>item. \<not> nullish item) items \<longrightarrow>
      (\<exists>rs out. list_all2 (\<lambda>item r. derive item = Inr r) items rs \<and>
         extractUsernames (JArr items) = Inr out \<and>
         out = filter (\<lambda>r. truthy (username r)) rs \<and>
         (\<forall>r. truthy (username r) \<longrightarrow> count_list out r = count_list rs r))) \<and>
   (string_usernames following \<and> string_usernames followers \<longrightarrow>
      (\<exists>nfb. notFollowingBack following followers = Inr nfb \<and>
         (\<forall>x. lower_username x \<notin> lower_username ` set followers \<longrightarrow>
                count_list nfb x = count_list following x)))"
proof (intro conjI impI)
  assume "list_all (\<lambda>item. \<not> nullish item) items"
  from map_items_total [OF this] obtain rs where rs: "map_items items = Inr rs" by blast
  from map_items_Inr [OF rs] rs
  show "\<exists>rs out. list_all2 (\<lambda>item r. derive item = Inr r) items rs \<and>
         extractUsernames (JArr items) = Inr out \<and>
         out = filter (\<lambda>r. truthy (username r)) rs \<and>
         (\<forall>r. truthy (username r) \<longrightarrow> count_list out r = count_list rs r)"
    by (auto simp: extract_array count_list_filter)
next
  assume "string_usernames following \<and> string_usernames followers"
  then have "notFollowingBack following followers =
           Inr (filter (\<lambda>x. lower_username x \<notin> lower_username ` set followers) following)"
    by (simp add: notFollowingBack_strings)
  then show "\<exists>nfb. notFollowingBack following followers = Inr nfb \<and>
         (\<forall>x. lower_username x \<notin> lower_username ` set followers \<longrightarrow>
                count_list nfb x = count_list following x)"
    by (simp add: count_list_filter)
qed

text \<open>
  The theorem at \<^verbatim>\<open>[{title: "a"}, {title: "A"}, {title: "a"}]\<close>, and with the three
  records that come out as \<open>following\<close> against the single follower \<^verbatim>\<open>b\<close>.
\<close>

theorem no_deduplication_witness:
  "list_all (\<lambda>item. \<not> nullish item)
     [JObj [(''title'', JStr ''a'')], JObj [(''title'', JStr ''A'')], JObj [(''title'', JStr ''a'')]] \<and>
   extractUsernames
     (JArr [JObj [(''title'', JStr ''a'')], JObj [(''title'', JStr ''A'')], JObj [(''title'', JStr ''a'')]]) =
     Inr [\<lparr> username = JStr ''a'', href = JStr '''' \<rparr>, \<lparr> username = JStr ''A'', href = JStr '''' \<rparr>,
          \<lparr> username = JStr ''a'', href = JStr '''' \<rparr>] \<and>
   string_usernames [\<lparr> username = JStr ''a'', href = JStr '''' \<rparr>, \<lparr> username = JStr ''A'', href = JStr '''' \<rparr>,
          \<lparr> username = JStr ''a'', href = JStr '''' \<rparr>] \<and>
   string_usernames [\<lparr> username = JStr ''b'', href = JStr '''' \<rparr>] \<and>
   notFollowingBack
     [\<lparr> username = JStr ''a'', href = JStr '''' \<rparr>, \<lparr> username = JStr ''A'', href = JStr '''' \<rparr>,
      \<lparr> username = JStr ''a'', href = JStr '''' \<rparr>]
     [\<lparr> username = JStr ''b'', href = JStr '''' \<rparr>] =
     Inr [\<lparr> username = JStr ''a'', href = JStr '''' \<rparr>, \<lparr> username = JStr ''A'', href = JStr '''' \<rparr>,
          \<lparr> username = JStr ''a'', href = JStr '''' \<rparr>]"
proof -
  let ?items = "[JObj [(''title'', JStr ''a'')], JObj [(''title'', JStr ''A'')], JObj [(''title'', JStr ''a'')]]"
  let ?following = "[\<lparr> username = JStr ''a'', href = JStr '''' \<rparr>, \<lparr> username = JStr ''A'', href = JStr '''' \<rparr>,
          \<lparr> username = JStr ''a'', href = JStr '''' \<rparr>]"
  let ?followers = "[\<lparr> username = JStr ''b'', href = JStr '''' \<rparr>]"
  have h0: "list_all (\<lambda>item. \<not> nullish item) ?items" by simp
  have h1: "string_usernames ?following" and h2: "string_usernames ?followers"
    by (simp_all add: string_usernames_def)
  note c1 = no_deduplication [of ?items, THEN conjunct1, THEN mp, OF h0]
  then obtain rs where "list_all2 (\<lambda>item r. derive item = Inr r) ?items rs"
    and "extractUsernames (JArr ?items) = Inr (filter (\<lambda>r. truthy (username r)) rs)"
    by (elim exE conjE) simp
  then have e: "extractUsernames (JArr ?items) = Inr ?following"
    by (clarsimp simp: list_all2_Cons1 derive_def get_prop_def opt_prop_def or_js_def)
  have n: "notFollowingBack ?following ?followers = Inr ?following"
    by code_simp
  from h0 e h1 h2 n show ?thesis by (intro conjI)
qed

text \<open>
  C10 as the claim states it fails where a username is not a string. The followers
  array \<^verbatim>\<open>[{title: 5}]\<close> normalizes to one record whose username is the number 5;
  against it the two records of following \<^verbatim>\<open>[{username: "a"}, {username: "a"}]\<close>
  match no follower, the claim says both appear in the result, and the computation
  throws at \<^verbatim>\<open>toLowerCase\<close> instead, so that no list comes back at all.
\<close>

theorem no_deduplication_counterexample:
  "extractUsernames (JArr [JObj [(''title'', JNum 5)]]) =
     Inr [\<lparr> username = JNum 5, href = JStr '''' \<rparr>] \<and>
   notFollowingBack
     [\<lparr> username = JStr ''a'', href = JStr '''' \<rparr>, \<lparr> username = JStr ''a'', href = JStr '''' \<rparr>]
     [\<lparr> username = JNum 5, href = JStr '''' \<rparr>] = Inl TypeError"
  by (simp add: extractUsernames_def derive_def get_prop_def opt_prop_def or_js_def
        notFollowingBack_def)

section \<open>Claims about the unwrapper, the parse guard and the orchestration\<close>

lemma parseJSON_blank:
  "list_all is_js_space input \<Longrightarrow> parseJSON parse input = (JNull, [])"
  using trim_blank [of input] by (simp add: parseJSON_def)

lemma parseJSON_not_blank:
  "\<not> list_all is_js_space input \<Longrightarrow>
   parseJSON parse input =
     (case parse input of Inr v \<Rightarrow> (v, []) | Inl e \<Rightarrow> (JNull, [LogParseError e, Alert JSONFormatAlert]))"
  using trim_blank [of input] by (simp add: parseJSON_def)

lemma parseJSON_falsy:
  assumes "parse input = Inr v" and "\<not> truthy v"
  shows "\<exists>w. parseJSON parse input = (w, []) \<and> \<not> truthy w"
proof (cases "list_all is_js_space input")
  case True
  then show ?thesis by (simp add: parseJSON_blank)
next
  case False
  with assms show ?thesis by (simp add: parseJSON_not_blank)
qed

lemma parseJSON_log:
  "snd (parseJSON parse input) = [] \<or>
   (\<exists>e. snd (parseJSON parse input) = [LogParseError e, Alert JSONFormatAlert])"
  by (cases "list_all is_js_space input")
     (auto simp: parseJSON_blank parseJSON_not_blank split: sum.splits)

lemma parseJSON_ok:
  "list_all is_js_space input \<or> (\<exists>w. parse input = Inr w) \<Longrightarrow> snd (parseJSON parse input) = []"
  by (cases "list_all is_js_space input")
     (auto simp: parseJSON_blank parseJSON_not_blank)

text \<open>
  C6, as amended. For the two key names and every parsed value that reaches the
  unwrapper (line 189 lets only truthy values through, so never \<^verbatim>\<open>null\<close>), the
  unwrapper returns the value at the key whenever the parsed value is an object that
  has the key with a truthy value (every array, the empty one too, is truthy), and
  otherwise the parsed value itself. When the key is present with a falsy value the
  object is returned, not that value; neither is an array, so extractUsernames gives
  the same list for what the code returns and for what the specification describes.
\<close>

theorem unwrap_truthy_value:
  assumes "key = ''relationships_following'' \<or> key = ''relationships_followers''"
    and "\<not> nullish raw"
  shows "unwrap key raw =
           Inr (case raw of
                  JObj ps \<Rightarrow> (case map_of ps key of Some v \<Rightarrow> if truthy v then v else raw | None \<Rightarrow> raw)
                | _ \<Rightarrow> raw) \<and>
         (case unwrap key raw of Inl e \<Rightarrow> Inl e | Inr a \<Rightarrow> extractUsernames a) =
           extractUsernames (spec_unwrap key raw)"
proof -
  from assms(1) have k: "key \<noteq> ''0''" by auto
  have na: "\<not> truthy v \<Longrightarrow> \<not> isArray v" for v by (cases v) simp_all
  show ?thesis
  proof (cases raw)
    case (JObj ps)
    then show ?thesis
      by (auto simp: unwrap_def get_prop_def or_js_def spec_unwrap_def extractUsernames_def na
               split: option.splits)
  qed (use assms(2) k in \<open>simp_all add: unwrap_def get_prop_def or_js_def spec_unwrap_def\<close>)
qed

text \<open>
  The theorem at the wrapped example
  \<^verbatim>\<open>{relationships_following: [{string_list_data: [{value: "x", href: "h"}]}]}\<close>, which
  unwraps to the array and normalizes to \<^verbatim>\<open>[{username: "x", href: "h"}]\<close>.
\<close>

theorem unwrap_truthy_value_witness:
  "(''relationships_following'' = ''relationships_following'' \<or>
    ''relationships_following'' = ''relationships_followers'') \<and>
   \<not> nullish (JObj [(''relationships_following'',
       JArr [JObj [(''string_list_data'', JArr [JObj [(''value'', JStr ''x''), (''href'', JStr ''h'')]])]])]) \<and>
   unwrap ''relationships_following'' (JObj [(''relationships_following'',
       JArr [JObj [(''string_list_data'', JArr [JObj [(''value'', JStr ''x''), (''href'', JStr ''h'')]])]])]) =
     Inr (JArr [JObj [(''string_list_data'', JArr [JObj [(''value'', JStr ''x''), (''href'', JStr ''h'')]])]]) \<and>
   extractUsernames (JArr [JObj [(''string_list_data'', JArr [JObj [(''value'', JStr ''x''), (''href'', JStr ''h'')]])]]) =
     Inr [\<lparr> username = JStr ''x'', href = JStr ''h'' \<rparr>]"
proof -
  let ?arr = "JArr [JObj [(''string_list_data'', JArr [JObj [(''value'', JStr ''x''), (''href'', JStr ''h'')]])]]"
  let ?raw = "JObj [(''relationships_following'', ?arr)]"
  have h1: "''relationships_following'' = ''relationships_following'' \<or>
    ''relationships_following'' = ''relationships_followers''" by simp
  have h2: "\<not> nullish ?raw" by simp
  from unwrap_truthy_value [OF h1 h2]
  have u: "unwrap ''relationships_following'' ?raw = Inr ?arr" by simp
  have e: "extractUsernames ?arr = Inr [\<lparr> username = JStr ''x'', href = JStr ''h'' \<rparr>]"
    by (simp add: extractUsernames_def derive_def get_prop_def opt_prop_def or_js_def)
  from h1 h2 u e show ?thesis by (intro conjI)
qed

text \<open>
  C6 as the claim states it fails on \<^verbatim>\<open>{relationships_following: null}\<close>: the key is
  present, the claim says its value \<^verbatim>\<open>null\<close> is returned, and the code returns the
  object.
\<close>

theorem unwrap_falsy_counterexample:
  "unwrap ''relationships_following'' (JObj [(''relationships_following'', JNull)]) =
     Inr (JObj [(''relationships_following'', JNull)]) \<and>
   spec_unwrap ''relationships_following'' (JObj [(''relationships_following'', JNull)]) = JNull"
  by (simp add: unwrap_def get_prop_def or_js_def spec_unwrap_def)

text \<open>
  C4, as amended. For every blank text (empty, or white space only) the parse guard
  returns \<^verbatim>\<open>null\<close> and neither logs nor alerts. For every other text that the parser
  rejects it returns \<^verbatim>\<open>null\<close> as well, after logging the parser's error to the console
  and raising an alert with a fixed text. For every other text it returns the parsed
  value. The returned value alone therefore tells blank text from rejected text as
  little as from the text \<^verbatim>\<open>null\<close>; blank and rejected text differ in the log and the
  alert only.
\<close>

theorem parseJSON_outcomes:
  "(list_all is_js_space input \<longrightarrow> parseJSON parse input = (JNull, [])) \<and>
   (\<not> list_all is_js_space input \<longrightarrow>
      (\<forall>e. parse input = Inl e \<longrightarrow>
           parseJSON parse input = (JNull, [LogParseError e, Alert JSONFormatAlert])) \<and>
      (\<forall>v. parse input = Inr v \<longrightarrow> parseJSON parse input = (v, [])))"
  by (simp add: parseJSON_blank parseJSON_not_blank)

text \<open>
  The theorem at the blank text of three spaces, at the malformed \<^verbatim>\<open>{bad\<close> and at
  \<^verbatim>\<open>[]\<close>.
\<close>

theorem parseJSON_outcomes_witness:
  "list_all is_js_space ''   '' \<and> parseJSON JSON_parse ''   '' = (JNull, []) \<and>
   \<not> list_all is_js_space ''{bad'' \<and> JSON_parse ''{bad'' = Inl SyntaxError \<and>
   parseJSON JSON_parse ''{bad'' = (JNull, [LogParseError SyntaxError, Alert JSONFormatAlert]) \<and>
   \<not> list_all is_js_space ''[]'' \<and> JSON_parse ''[]'' = Inr (JArr []) \<and>
   parseJSON JSON_parse ''[]'' = (JArr [], [])"
proof -
  have b1: "list_all is_js_space ''   ''" by code_simp
  have b2: "\<not> list_all is_js_space ''{bad''" by code_simp
  have b3: "\<not> list_all is_js_space ''[]''" by code_simp
  have p2: "JSON_parse ''{bad'' = Inl SyntaxError" by code_simp
  have p3: "JSON_parse ''[]'' = Inr (JArr [])" by code_simp
  note r1 = parseJSON_outcomes [where parse = JSON_parse, THEN conjunct1, THEN mp, OF b1]
  note r2 = parseJSON_outcomes [where parse = JSON_parse, THEN conjunct2, THEN mp, OF b2,
    THEN conjunct1, THEN spec, THEN mp, OF p2]
  note r3 = parseJSON_outcomes [where parse = JSON_parse, THEN conjunct2, THEN mp, OF b3,
    THEN conjunct2, THEN spec, THEN mp, OF p3]
  from b1 r1 b2 p2 r2 b3 p3 r3 show ?thesis by (intro conjI)
qed

text \<open>
  C4 as the claim states it fails: three spaces and the valid text \<^verbatim>\<open>null\<close> have the
  same outcome altogether, and three spaces and \<^verbatim>\<open>{bad\<close> return the same value.
\<close>

theorem parseJSON_same_null_counterexample:
  "parseJSON JSON_parse ''   '' = parseJSON JSON_parse ''null'' \<and>
   fst (parseJSON JSON_parse ''   '') = fst (parseJSON JSON_parse ''{bad'')"
  by code_simp

text \<open>
  C9. If one of the two texts parses to a falsy value (\<^verbatim>\<open>null\<close>, \<^verbatim>\<open>0\<close>,
  \<^verbatim>\<open>false\<close>, \<^verbatim>\<open>""\<close>), analyze does exactly what it does when that text is blank: it
  stops at line 189 with nothing but what parsing the other text has logged and
  alerted, so the loading state is never shown, nothing is normalized or compared,
  \<^verbatim>\<open>displayResults\<close> is not called and no analysis error is reported. Unless the
  other text is itself rejected by the parser, nothing happens at all.
\<close>

theorem falsy_input_aborts:
  assumes "parse input = Inr v" and "\<not> truthy v"
  shows "analyze parse input other = analyze parse [] other \<and>
         analyze parse other input = analyze parse other [] \<and>
         analyze parse input other = snd (parseJSON parse other) \<and>
         analyze parse other input = snd (parseJSON parse other) \<and>
         list_all parse_report (analyze parse input other) \<and>
         list_all parse_report (analyze parse other input) \<and>
         (list_all is_js_space other \<or> (\<exists>w. parse other = Inr w) \<longrightarrow>
            analyze parse input other = [] \<and> analyze parse other input = [])"
proof -
  from parseJSON_falsy [of parse input v, OF assms] obtain w
    where w: "parseJSON parse input = (w, [])" "\<not> truthy w" by blast
  have e: "parseJSON parse [] = (JNull, [])" by (simp add: parseJSON_def)
  have 1: "analyze parse input other = snd (parseJSON parse other)"
    using w by (simp add: analyze_def split: prod.splits)
  have 2: "analyze parse other input = snd (parseJSON parse other)"
    using w by (simp add: analyze_def split: prod.splits)
  have 3: "analyze parse [] other = snd (parseJSON parse other)"
    using e by (simp add: analyze_def split: prod.splits)
  have 4: "analyze parse other [] = snd (parseJSON parse other)"
    using e by (simp add: analyze_def split: prod.splits)
  have 5: "list_all parse_report (snd (parseJSON parse other))"
    using parseJSON_log [of parse other] by auto
  show ?thesis
    using 1 2 3 4 5 parseJSON_ok [of other parse] by simp
qed

text \<open>
  The theorem at the four falsy texts, each against the text \<^verbatim>\<open>[]\<close>.
\<close>

theorem falsy_input_aborts_witness:
  \<open>JSON_parse ''null'' = Inr JNull \<and> \<not> truthy JNull \<and> analyze JSON_parse ''null'' ''[]'' = [] \<and>
   JSON_parse ''0'' = Inr (JNum 0) \<and> \<not> truthy (JNum 0) \<and> analyze JSON_parse ''[]'' ''0'' = [] \<and>
   JSON_parse ''false'' = Inr (JBool False) \<and> \<not> truthy (JBool False) \<and>
   analyze JSON_parse ''false'' ''[]'' = [] \<and>
   JSON_parse ''""'' = Inr (JStr '''') \<and> \<not> truthy (JStr '''') \<and>
   analyze JSON_parse ''[]'' ''""'' = []\<close>
proof -
  have "JSON_parse ''[]'' = Inr (JArr [])" by code_simp
  then have "\<exists>w. JSON_parse ''[]'' = Inr w" by (rule exI)
  then have p0: "list_all is_js_space ''[]'' \<or> (\<exists>w. JSON_parse ''[]'' = Inr w)" by (rule disjI2)
  have p1: "JSON_parse ''null'' = Inr JNull" by code_simp
  have p2: "JSON_parse ''0'' = Inr (JNum 0)" by code_simp
  have p3: "JSON_parse ''false'' = Inr (JBool False)" by code_simp
  have p4: \<open>JSON_parse ''""'' = Inr (JStr '''')\<close> by code_simp
  have t1: "\<not> truthy JNull" and t2: "\<not> truthy (JNum 0)" and t3: "\<not> truthy (JBool False)"
    and t4: "\<not> truthy (JStr '''')" by simp_all
  from falsy_input_aborts [of JSON_parse "''null''" "JNull" "''[]''", OF p1 t1] p0
  have a1: "analyze JSON_parse ''null'' ''[]'' = []" by (elim conjE impE)
  from falsy_input_aborts [of JSON_parse "''0''" "JNum 0" "''[]''", OF p2 t2] p0
  have a2: "analyze JSON_parse ''[]'' ''0'' = []" by (elim conjE impE)
  from falsy_input_aborts [of JSON_parse "''false''" "JBool False" "''[]''", OF p3 t3] p0
  have a3: "analyze JSON_parse ''false'' ''[]'' = []" by (elim conjE impE)
  from falsy_input_aborts [of JSON_parse _ "JStr []" "''[]''", OF p4 t4] p0
  have a4: \<open>analyze JSON_parse ''[]'' ''""'' = []\<close> by (elim conjE impE)
  from p1 t1 a1 p2 t2 a2 p3 t3 a3 p4 t4 a4 show ?thesis by (intro conjI)
qed

section \<open>Two complete runs\<close>

text \<open>
  A wrapped following export against a bare followers array, and the array
  \<^verbatim>\<open>[null]\<close>, whose TypeError is caught at line 223.
\<close>

lemma analyze_example:
  \<open>analyze JSON_parse
     ''{"relationships_following": [{"string_list_data": [{"value": "a", "href": "u/a"}]}, {"title": "B"}]}''
     ''[{"string_list_data": [{"href": "u/b", "value": "b"}]}]'' =
   [ShowLoading,
    DisplayResults
      [\<lparr> username = JStr ''a'', href = JStr ''u/a'' \<rparr>, \<lparr> username = JStr ''B'', href = JStr '''' \<rparr>]
      [\<lparr> username = JStr ''b'', href = JStr ''u/b'' \<rparr>]
      [\<lparr> username = JStr ''a'', href = JStr ''u/a'' \<rparr>],
    ResetButton]\<close>
  by code_simp

lemma analyze_null_element:
  \<open>analyze JSON_parse ''[null]'' ''[]'' =
     [ShowLoading, LogAnalysisError TypeError, Alert AnalysisAlert, ResetButton, ClearResults]\<close>
  by code_simp

end
